theory Spec2Isabelle
  imports Complex_Main "HOL-Library.AList"
begin

section \<open>The duplicate-counting prevention tracker\<close>

text \<open>
  The tracker of \<^verbatim>\<open>people_counter_api.py\<close>, as its documentation excerpts it:
  a Python set \<^verbatim>\<open>counted_person_ids\<close> that is never cleared, a Python dict
  \<^verbatim>\<open>tracked_people_gender\<close> from person id to a small dict of metadata, and the
  integer counters \<^verbatim>\<open>male_count\<close>, \<^verbatim>\<open>female_count\<close> and \<^verbatim>\<open>count_p\<close>.
  The module-level variables become one record that every operation takes and returns.
\<close>

subsection \<open>Data\<close>

text \<open>Person ids are the strings \<^verbatim>\<open>ID0\<close>, \<^verbatim>\<open>ID1\<close>, ... handed out by \<^verbatim>\<open>update_tracking()\<close>.\<close>

type_synonym person_id = string

text \<open>
  One value of \<^verbatim>\<open>tracked_people_gender\<close>:
  \<^verbatim>\<open>{'gender': str, 'confidence': float, 'counted': bool, 'first_seen_frame': int}\<close>.
\<close>

record person_info =
  gender :: string
  confidence :: real
  counted :: bool
  first_seen_frame :: int

text \<open>
  A Python dict keeps its keys in insertion order and the cleanup loop iterates over them,
  so the dict is an association list: \<^verbatim>\<open>d[k] = v\<close> is \<^const>\<open>AList.update\<close> (overwrite in
  place, or append), \<^verbatim>\<open>del d[k]\<close> is \<^const>\<open>AList.delete\<close>, \<^verbatim>\<open>d.keys()\<close> is
  \<open>map fst\<close> and a lookup is \<^const>\<open>map_of\<close>.
\<close>

type_synonym gender_dict = "(person_id \<times> person_info) list"

record tracker =
  counted_person_ids :: "person_id set"
  tracked_people_gender :: gender_dict
  male_count :: int
  female_count :: int
  count_p :: int

text \<open>
  Modelled from the spec: the initial values of the three counters. The tracker
  initialisation (lines 193-203 of \<^verbatim>\<open>people_counter_api.py\<close>) is excerpted only for the
  two containers, \<^verbatim>\<open>tracked_people_gender = {}\<close> and \<^verbatim>\<open>counted_person_ids = set()\<close>;
  the scenarios of the specification start every counter at zero.
\<close>

definition init_tracker :: tracker where
  "init_tracker =
     \<lparr>counted_person_ids = {}, tracked_people_gender = [],
      male_count = 0, female_count = 0, count_p = 0\<rparr>"

subsection \<open>Step 3: the duplicate prevention check\<close>

text \<open>
  \<^verbatim>\<open>person_gender\<close> is the label of the classifier, or nothing when no face was
  classified in this frame. Python tests it by truthiness: \<^verbatim>\<open>None\<close> and the empty
  string are both false.
\<close>

definition truthy :: "string option \<Rightarrow> bool" where
  "truthy person_gender = (case person_gender of None \<Rightarrow> False | Some g \<Rightarrow> g \<noteq> [])"

text \<open>
  The body of the \<^verbatim>\<open>if\<close> (documentation lines 69-86):
  \<^verbatim>\<open>
    if gender_idx == 1:  # MALE (index 1)
        male_count += 1
    elif gender_idx == 0:  # FEMALE (index 0)
        female_count += 1
    counted_person_ids.add(id_obj)
    count_p += 1
    gender_classified = True
    tracked_people_gender[id_obj] = {
        'gender': person_gender, 'confidence': float(confidence),
        'counted': True, 'first_seen_frame': frame_count }
  \<close>
  \<^verbatim>\<open>gender_classified\<close> is a local flag of the detection being drawn, not tracker
  state, and is not part of the record.
\<close>

definition count_person ::
  "person_id \<Rightarrow> string \<Rightarrow> int \<Rightarrow> real \<Rightarrow> int \<Rightarrow> tracker \<Rightarrow> tracker" where
  "count_person id_obj person_gender gender_idx conf frame_count s =
     (let s1 = (if gender_idx = 1 then s\<lparr>male_count := male_count s + 1\<rparr>
                else if gender_idx = 0 then s\<lparr>female_count := female_count s + 1\<rparr>
                else s)
      in s1\<lparr>counted_person_ids := insert id_obj (counted_person_ids s1),
            count_p := count_p s1 + 1,
            tracked_people_gender :=
              AList.update id_obj
                \<lparr>gender = person_gender, confidence = conf,
                 counted = True, first_seen_frame = frame_count\<rparr>
                (tracked_people_gender s1)\<rparr>)"

text \<open>
  Modelled from the spec: the branch taken for an id that is already in
  \<^verbatim>\<open>counted_person_ids\<close>. The documentation excerpts only the counting branch of lines
  366-390; its flow diagram names the other one "Skip counting / Update gender info / Show
  as counted", and the specification words it as: do not alter any counter, update the
  record's label and confidence to the latest observation, never reset \<open>counted\<close> away
  from true; a record that cleanup has removed is recreated with \<open>counted = true\<close>.
\<close>

definition update_gender_info ::
  "person_id \<Rightarrow> string \<Rightarrow> real \<Rightarrow> int \<Rightarrow> tracker \<Rightarrow> tracker" where
  "update_gender_info id_obj person_gender conf frame_count s =
     s\<lparr>tracked_people_gender :=
         AList.update id_obj
           (case map_of (tracked_people_gender s) id_obj of
              None \<Rightarrow> \<lparr>gender = person_gender, confidence = conf,
                       counted = True, first_seen_frame = frame_count\<rparr>
            | Some r \<Rightarrow> r\<lparr>gender := person_gender, confidence := conf\<rparr>)
           (tracked_people_gender s)\<rparr>"

text \<open>
  The check itself (documentation line 68):
  \<^verbatim>\<open>if id_obj not in counted_person_ids and person_gender:\<close>.
  Without a label nothing is written at all.
\<close>

definition observe ::
  "person_id \<Rightarrow> string option \<Rightarrow> int \<Rightarrow> real \<Rightarrow> int \<Rightarrow> tracker \<Rightarrow> tracker" where
  "observe id_obj person_gender gender_idx conf frame_count s =
     (case person_gender of
        None \<Rightarrow> s
      | Some g \<Rightarrow>
          if id_obj \<notin> counted_person_ids s \<and> truthy person_gender
          then count_person id_obj g gender_idx conf frame_count s
          else if truthy person_gender
          then update_gender_info id_obj g conf frame_count s
          else s)"

subsection \<open>Step 4: the membership query behind the visual indicator\<close>

text \<open>
  \<^verbatim>\<open>
    if id_obj in counted_person_ids:
        color = (0, 255, 0)  # Green for already counted
    else:
        color = (0, 0, 255)  # Red for new detection
  \<close>
\<close>

definition isCounted :: "person_id \<Rightarrow> tracker \<Rightarrow> bool" where
  "isCounted id_obj s = (id_obj \<in> counted_person_ids s)"

datatype status = Uncounted | Counted

definition status_of :: "person_id \<Rightarrow> tracker \<Rightarrow> status" where
  "status_of id_obj s = (if id_obj \<in> counted_person_ids s then Counted else Uncounted)"

definition box_color :: "person_id \<Rightarrow> tracker \<Rightarrow> int \<times> int \<times> int" where
  "box_color id_obj s =
     (if id_obj \<in> counted_person_ids s then (0, 255, 0) else (0, 0, 255))"

subsection \<open>Step 5: cleanup\<close>

text \<open>
  \<^verbatim>\<open>
    ids_to_remove = []
    for tracked_id in list(tracked_people_gender.keys()):
        if tracked_id not in current_tracked_ids:
            ids_to_remove.append(tracked_id)
  \<close>
\<close>

definition ids_to_remove :: "person_id set \<Rightarrow> gender_dict \<Rightarrow> person_id list" where
  "ids_to_remove current_tracked_ids d =
     filter (\<lambda>tracked_id. tracked_id \<notin> current_tracked_ids) (map fst d)"

text \<open>
  \<^verbatim>\<open>
    for tracked_id in ids_to_remove:
        if tracked_id in tracked_people_gender:
            del tracked_people_gender[tracked_id]
  \<close>
\<close>

fun remove_ids :: "person_id list \<Rightarrow> gender_dict \<Rightarrow> gender_dict" where
  "remove_ids [] d = d"
| "remove_ids (tracked_id # ids) d =
     remove_ids ids
       (if tracked_id \<in> set (map fst d) then AList.delete tracked_id d else d)"

text \<open>
  The whole cleanup; \<^verbatim>\<open>current_tracked_ids = set(centers_old.keys())\<close> is its input.
  \<^verbatim>\<open>counted_person_ids\<close> is not written.
\<close>

definition reconcileActive :: "person_id set \<Rightarrow> tracker \<Rightarrow> tracker" where
  "reconcileActive current_tracked_ids s =
     s\<lparr>tracked_people_gender :=
         remove_ids (ids_to_remove current_tracked_ids (tracked_people_gender s))
           (tracked_people_gender s)\<rparr>"

subsection \<open>Sessions\<close>

text \<open>
  A session is the sequence of calls the frame loop makes on one tracker, starting from
  \<^const>\<open>init_tracker\<close>.
\<close>

datatype call =
    Observe person_id "string option" int real int
  | Reconcile "person_id set"

fun step :: "call \<Rightarrow> tracker \<Rightarrow> tracker" where
  "step (Observe id_obj person_gender gender_idx conf frame_count) s =
     observe id_obj person_gender gender_idx conf frame_count s"
| "step (Reconcile current_tracked_ids) s = reconcileActive current_tracked_ids s"

fun run :: "call list \<Rightarrow> tracker \<Rightarrow> tracker" where
  "run [] s = s"
| "run (c # cs) s = run cs (step c s)"

text \<open>
  The classifier has two classes, index 1 (MALE) and index 0 (FEMALE). A call is
  well-formed when a label that is present comes with one of these two indices.
\<close>

definition valid_category :: "int \<Rightarrow> bool" where
  "valid_category gender_idx = (gender_idx = 1 \<or> gender_idx = 0)"

fun valid_call :: "call \<Rightarrow> bool" where
  "valid_call (Observe id_obj person_gender gender_idx conf frame_count) =
     (\<not> truthy person_gender \<or> valid_category gender_idx)"
| "valid_call (Reconcile current_tracked_ids) = True"

text \<open>Does a call observe the identity \<open>i\<close>?\<close>

fun observes :: "person_id \<Rightarrow> call \<Rightarrow> bool" where
  "observes i (Observe id_obj person_gender gender_idx conf frame_count) = (id_obj = i)"
| "observes i (Reconcile current_tracked_ids) = False"

text \<open>
  The number of calls in a session, run from state \<open>s\<close>, that observe \<open>i\<close> and change
  one of the counters.
\<close>

definition counters :: "tracker \<Rightarrow> int \<times> int \<times> int" where
  "counters s = (male_count s, female_count s, count_p s)"

fun credits :: "person_id \<Rightarrow> call list \<Rightarrow> tracker \<Rightarrow> nat" where
  "credits i [] s = 0"
| "credits i (c # cs) s =
     (if observes i c \<and> counters (step c s) \<noteq> counters s then 1 else 0)
       + credits i cs (step c s)"

subsection \<open>Invariants of a session\<close>

text \<open>The total \<^verbatim>\<open>count_p\<close> is the number of ids that have been counted.\<close>

definition total_is_card :: "tracker \<Rightarrow> bool" where
  "total_is_card s =
     (finite (counted_person_ids s) \<and> count_p s = int (card (counted_person_ids s)))"

text \<open>
  "Total count is always: \<^verbatim>\<open>male_count + female_count\<close>" (the documentation, under
  Consistency).
\<close>

definition total_is_sum :: "tracker \<Rightarrow> bool" where
  "total_is_sum s = (count_p s = male_count s + female_count s)"

text \<open>No counter of \<open>t\<close> is below the same counter of \<open>s\<close>.\<close>

definition counters_le :: "tracker \<Rightarrow> tracker \<Rightarrow> bool" where
  "counters_le s t =
     (male_count s \<le> male_count t \<and> female_count s \<le> female_count t
      \<and> count_p s \<le> count_p t)"

text \<open>Every record belongs to a counted id and carries \<open>counted = True\<close>.\<close>

definition records_counted :: "tracker \<Rightarrow> bool" where
  "records_counted s =
     (\<forall>(k, r) \<in> set (tracked_people_gender s). k \<in> counted_person_ids s \<and> counted r)"

text \<open>A confidence is a probability; the code stores \<^verbatim>\<open>float(confidence)\<close> as it comes.\<close>

definition valid_confidence :: "real \<Rightarrow> bool" where
  "valid_confidence conf = (0 \<le> conf \<and> conf \<le> 1)"

section \<open>Basic facts about the operations\<close>

lemma observe_absent: "\<not> truthy g \<Longrightarrow> observe i g idx c f s = s"
  by (simp add: observe_def truthy_def split: option.splits)

lemma observe_count:
  "i \<notin> counted_person_ids s \<Longrightarrow> pg \<noteq> [] \<Longrightarrow>
   observe i (Some pg) idx c f s = count_person i pg idx c f s"
  by (simp add: observe_def truthy_def)

lemma observe_update:
  "i \<in> counted_person_ids s \<Longrightarrow> pg \<noteq> [] \<Longrightarrow>
   observe i (Some pg) idx c f s = update_gender_info i pg c f s"
  by (simp add: observe_def truthy_def)

lemma count_person_ids [simp]:
  "counted_person_ids (count_person i pg idx c f s) = insert i (counted_person_ids s)"
  by (simp add: count_person_def Let_def)

lemma update_gender_info_ids [simp]:
  "counted_person_ids (update_gender_info i pg c f s) = counted_person_ids s"
  by (simp add: update_gender_info_def)

lemma update_gender_info_counters [simp]:
  "counters (update_gender_info i pg c f s) = counters s"
  by (simp add: update_gender_info_def counters_def)

lemma reconcileActive_ids [simp]:
  "counted_person_ids (reconcileActive S s) = counted_person_ids s"
  by (simp add: reconcileActive_def)

lemma reconcileActive_counters [simp]:
  "counters (reconcileActive S s) = counters s"
  by (simp add: reconcileActive_def counters_def)

lemma observe_ids_mono: "counted_person_ids s \<subseteq> counted_person_ids (observe i g idx c f s)"
  by (auto simp: observe_def split: option.splits)

lemma step_ids_mono: "counted_person_ids s \<subseteq> counted_person_ids (step a s)"
  by (cases a) (use observe_ids_mono in auto)

lemma run_ids_mono: "counted_person_ids s \<subseteq> counted_person_ids (run cs s)"
proof (induction cs arbitrary: s)
  case Nil
  show ?case by simp
next
  case (Cons a cs)
  have "counted_person_ids s \<subseteq> counted_person_ids (step a s)"
    by (rule step_ids_mono)
  also have "\<dots> \<subseteq> counted_person_ids (run cs (step a s))"
    by (rule Cons.IH)
  finally show ?case by simp
qed

lemma observe_counted_counters:
  "i \<in> counted_person_ids s \<Longrightarrow> counters (observe i g idx c f s) = counters s"
  by (simp add: observe_def split: option.splits)

lemma observe_counters_changed:
  "counters (observe i g idx c f s) \<noteq> counters s \<Longrightarrow>
   i \<in> counted_person_ids (observe i g idx c f s)"
  by (auto simp: observe_def split: option.splits if_splits)

subsection \<open>Cleanup removes exactly the keys outside the current frame\<close>

lemma remove_ids_map_of:
  "map_of (remove_ids ks d) k = (if k \<in> set ks then None else map_of d k)"
proof (induction ks arbitrary: d)
  case Nil
  show ?case by simp
next
  case (Cons a ks)
  show ?case
    by (simp add: Cons.IH delete_conv' map_of_eq_None_iff delete_notin_dom)
qed

lemma remove_ids_keys: "fst ` set (remove_ids ks d) = fst ` set d - set ks"
proof -
  have "dom (map_of (remove_ids ks d)) = dom (map_of d) - set ks"
    by (auto simp: remove_ids_map_of dom_def)
  then show ?thesis
    by (simp add: dom_map_of_conv_image_fst)
qed

lemma remove_ids_subset: "set (remove_ids ks d) \<subseteq> set d"
proof (induction ks arbitrary: d)
  case Nil
  show ?case by simp
next
  case (Cons a ks)
  have "set (remove_ids (a # ks) d)
          \<subseteq> set (if a \<in> set (map fst d) then AList.delete a d else d)"
    using Cons.IH by simp
  also have "\<dots> \<subseteq> set d"
    by (auto simp: AList.delete_eq)
  finally show ?case .
qed

lemma reconcileActive_map_of:
  "map_of (tracked_people_gender (reconcileActive S s)) k =
     (if k \<in> S then map_of (tracked_people_gender s) k else None)"
  by (auto simp: reconcileActive_def remove_ids_map_of ids_to_remove_def map_of_eq_None_iff)

lemma reconcileActive_keys:
  "fst ` set (tracked_people_gender (reconcileActive S s)) =
     fst ` set (tracked_people_gender s) \<inter> S"
  by (auto simp: reconcileActive_def remove_ids_keys ids_to_remove_def)

subsection \<open>Counting happens at most once per id\<close>

lemma step_counted_counters:
  "observes i a \<Longrightarrow> i \<in> counted_person_ids s \<Longrightarrow> counters (step a s) = counters s"
  by (cases a) (auto simp: observe_counted_counters)

lemma step_counters_changed:
  "observes i a \<Longrightarrow> counters (step a s) \<noteq> counters s \<Longrightarrow> i \<in> counted_person_ids (step a s)"
  by (cases a) (auto dest: observe_counters_changed)

lemma credits_counted: "i \<in> counted_person_ids s \<Longrightarrow> credits i cs s = 0"
proof (induction cs arbitrary: s)
  case Nil
  show ?case by simp
next
  case (Cons a cs)
  have "i \<in> counted_person_ids (step a s)"
    using Cons.prems step_ids_mono [of s a] by blast
  then have "credits i cs (step a s) = 0"
    by (rule Cons.IH)
  moreover have "observes i a \<Longrightarrow> counters (step a s) = counters s"
    using Cons.prems by (simp add: step_counted_counters)
  ultimately show ?case by auto
qed

lemma credits_le_1: "credits i cs s \<le> 1"
proof (induction cs arbitrary: s)
  case Nil
  show ?case by simp
next
  case (Cons a cs)
  show ?case
  proof (cases "observes i a \<and> counters (step a s) \<noteq> counters s")
    case True
    then have "i \<in> counted_person_ids (step a s)"
      by (simp add: step_counters_changed)
    then have "credits i cs (step a s) = 0"
      by (rule credits_counted)
    with True show ?thesis by simp
  next
    case False
    then show ?thesis using Cons.IH [of "step a s"] by auto
  qed
qed

lemma count_person_counters:
  "valid_category idx \<Longrightarrow>
   count_p (count_person i pg idx c f s) = count_p s + 1 \<and>
   (if idx = 1
    then male_count (count_person i pg idx c f s) = male_count s + 1 \<and>
         female_count (count_person i pg idx c f s) = female_count s
    else male_count (count_person i pg idx c f s) = male_count s \<and>
         female_count (count_person i pg idx c f s) = female_count s + 1)"
  by (auto simp: count_person_def valid_category_def Let_def)

subsection \<open>The total against the counted set and the gender counters\<close>

lemma observe_total_is_card: "total_is_card s \<Longrightarrow> total_is_card (observe i g idx c f s)"
  by (auto simp: total_is_card_def observe_def count_person_def update_gender_info_def Let_def
      split: option.splits)

lemma step_total_is_card: "total_is_card s \<Longrightarrow> total_is_card (step a s)"
  by (cases a) (auto simp: observe_total_is_card, simp add: total_is_card_def reconcileActive_def)

lemma run_total_is_card: "total_is_card s \<Longrightarrow> total_is_card (run cs s)"
  by (induction cs arbitrary: s) (auto simp: step_total_is_card)

lemma observe_total_is_sum:
  "total_is_sum s \<Longrightarrow> \<not> truthy g \<or> valid_category idx \<Longrightarrow>
   total_is_sum (observe i g idx c f s)"
  by (auto simp: total_is_sum_def observe_def count_person_def update_gender_info_def Let_def
      valid_category_def split: option.splits)

lemma step_total_is_sum: "total_is_sum s \<Longrightarrow> valid_call a \<Longrightarrow> total_is_sum (step a s)"
  by (cases a) (auto simp: observe_total_is_sum, simp add: total_is_sum_def reconcileActive_def)

lemma run_total_is_sum:
  "total_is_sum s \<Longrightarrow> list_all valid_call cs \<Longrightarrow> total_is_sum (run cs s)"
  by (induction cs arbitrary: s) (auto simp: step_total_is_sum)

lemma observe_counters_le: "counters_le s (observe i g idx c f s)"
  by (auto simp: counters_le_def observe_def count_person_def update_gender_info_def Let_def
      split: option.splits)

lemma step_counters_le: "counters_le s (step a s)"
  by (cases a) (auto simp: observe_counters_le, simp add: counters_le_def reconcileActive_def)

lemma run_counters_le: "counters_le s (run cs s)"
proof (induction cs arbitrary: s)
  case Nil
  show ?case by (simp add: counters_le_def)
next
  case (Cons a cs)
  have "counters_le s (step a s)" by (rule step_counters_le)
  moreover have "counters_le (step a s) (run cs (step a s))" by (rule Cons.IH)
  ultimately show ?case by (auto simp: counters_le_def)
qed

text \<open>
  With class indices 1 and 0 only, the total stays the sum of the gender counters over a
  whole session.
\<close>

lemma valid_session_total_is_sum:
  "list_all valid_call cs \<Longrightarrow>
   count_p (run cs init_tracker)
     = male_count (run cs init_tracker) + female_count (run cs init_tracker)"
proof -
  have "total_is_sum init_tracker"
    by (simp add: total_is_sum_def init_tracker_def)
  moreover assume "list_all valid_call cs"
  ultimately have "total_is_sum (run cs init_tracker)"
    by (rule run_total_is_sum)
  then show ?thesis
    by (simp add: total_is_sum_def)
qed

subsection \<open>Records exist only for counted ids\<close>

lemma set_update_cases:
  "p \<in> set (AList.update k v al) \<Longrightarrow> p = (k, v) \<or> p \<in> set al"
  by (induction al) (auto split: if_splits)

lemma count_person_records_counted:
  "records_counted s \<Longrightarrow> records_counted (count_person i pg idx c f s)"
  by (auto simp: records_counted_def count_person_def Let_def dest!: set_update_cases)

lemma update_gender_info_records_counted:
  assumes "records_counted s" and "i \<in> counted_person_ids s"
  shows "records_counted (update_gender_info i pg c f s)"
proof -
  have "counted (case map_of (tracked_people_gender s) i of
              None \<Rightarrow> \<lparr>gender = pg, confidence = c, counted = True, first_seen_frame = f\<rparr>
            | Some r \<Rightarrow> r\<lparr>gender := pg, confidence := c\<rparr>)"
    using assms(1) by (auto simp: records_counted_def split: option.splits dest!: map_of_SomeD)
  with assms show ?thesis
    by (auto simp: records_counted_def update_gender_info_def dest!: set_update_cases)
qed

lemma observe_records_counted: "records_counted s \<Longrightarrow> records_counted (observe i g idx c f s)"
  by (auto simp: observe_def count_person_records_counted update_gender_info_records_counted
      split: option.splits)

lemma reconcileActive_records_counted:
  "records_counted s \<Longrightarrow> records_counted (reconcileActive S s)"
  using remove_ids_subset [of "ids_to_remove S (tracked_people_gender s)" "tracked_people_gender s"]
  by (auto simp: records_counted_def reconcileActive_def)

lemma step_records_counted: "records_counted s \<Longrightarrow> records_counted (step a s)"
  by (cases a) (auto simp: observe_records_counted reconcileActive_records_counted)

lemma run_records_counted: "records_counted s \<Longrightarrow> records_counted (run cs s)"
  by (induction cs arbitrary: s) (auto simp: step_records_counted)

subsection \<open>Ids that no call observes\<close>

lemma step_not_observed:
  "\<not> observes i a \<Longrightarrow> i \<notin> counted_person_ids s \<Longrightarrow> i \<notin> counted_person_ids (step a s)"
  by (cases a) (auto simp: observe_def split: option.splits if_splits)

lemma run_not_observed:
  "list_all (\<lambda>a. \<not> observes i a) cs \<Longrightarrow> i \<notin> counted_person_ids s \<Longrightarrow>
   i \<notin> counted_person_ids (run cs s)"
  by (induction cs arbitrary: s) (auto simp: step_not_observed)

section \<open>The claims\<close>

text \<open>
  C1 (at-most-once counting). For every identity \<open>i\<close>, every session \<open>cs\<close> and every
  state \<open>s\<close> it is run from, the number of calls that observe \<open>i\<close> and change a counter
  is 0 or 1. A first observe of \<open>i\<close> with a label, while \<open>i\<close> is not in
  \<^verbatim>\<open>counted_person_ids\<close>, increments exactly one of the two gender counters (the label
  comes with class index 1 or 0) and puts \<open>i\<close> into the set; from a state where \<open>i\<close> is
  in the set, no observe of \<open>i\<close> changes a counter again.
\<close>

theorem at_most_once_counting:
  "credits i cs s \<le> 1
   \<and> (i \<notin> counted_person_ids s \<and> truthy g \<and> valid_category idx \<longrightarrow>
        ((male_count (observe i g idx c f s) = male_count s + 1 \<and>
          female_count (observe i g idx c f s) = female_count s)
         \<or> (male_count (observe i g idx c f s) = male_count s \<and>
            female_count (observe i g idx c f s) = female_count s + 1))
        \<and> i \<in> counted_person_ids (observe i g idx c f s))
   \<and> (i \<in> counted_person_ids s \<longrightarrow>
        counters (observe i g idx c f s) = counters s \<and> credits i cs s = 0)"
proof (intro conjI impI)
  show "credits i cs s \<le> 1" by (rule credits_le_1)
next
  assume a: "i \<notin> counted_person_ids s \<and> truthy g \<and> valid_category idx"
  then obtain pg where g: "g = Some pg" "pg \<noteq> []"
    by (cases g) (auto simp: truthy_def)
  with a have eq: "observe i g idx c f s = count_person i pg idx c f s"
    by (simp add: observe_count)
  from a have v: "valid_category idx" by simp
  show "(male_count (observe i g idx c f s) = male_count s + 1 \<and>
          female_count (observe i g idx c f s) = female_count s)
         \<or> (male_count (observe i g idx c f s) = male_count s \<and>
            female_count (observe i g idx c f s) = female_count s + 1)"
    unfolding eq using count_person_counters [OF v, of i pg c f s]
    by (auto split: if_splits)
  show "i \<in> counted_person_ids (observe i g idx c f s)"
    unfolding eq by simp
next
  assume "i \<in> counted_person_ids s"
  then show "counters (observe i g idx c f s) = counters s"
    by (rule observe_counted_counters)
next
  assume "i \<in> counted_person_ids s"
  then show "credits i cs s = 0"
    by (rule credits_counted)
qed

theorem at_most_once_counting_witness:
  "credits ''P1''
     [Observe ''P1'' None 1 0 99, Observe ''P1'' (Some ''MALE'') 1 (9/10) 100, Reconcile {},
      Observe ''P1'' (Some ''FEMALE'') 0 (19/20) 300] init_tracker = 1
   \<and> ''P1'' \<notin> counted_person_ids init_tracker \<and> truthy (Some ''MALE'') \<and> valid_category 1
   \<and> male_count (observe ''P1'' (Some ''MALE'') 1 (9/10) 100 init_tracker) = 1
   \<and> female_count (observe ''P1'' (Some ''MALE'') 1 (9/10) 100 init_tracker) = 0
   \<and> ''P1'' \<in> counted_person_ids (observe ''P1'' (Some ''MALE'') 1 (9/10) 100 init_tracker)
   \<and> counters (observe ''P1'' (Some ''FEMALE'') 0 (19/20) 300
        (observe ''P1'' (Some ''MALE'') 1 (9/10) 100 init_tracker)) = (1, 0, 1)
   \<and> credits ''P1'' [Observe ''P1'' (Some ''FEMALE'') 0 (19/20) 300]
        (observe ''P1'' (Some ''MALE'') 1 (9/10) 100 init_tracker) = 0"
  using at_most_once_counting [of "''P1''"
      "[Observe ''P1'' None 1 0 99, Observe ''P1'' (Some ''MALE'') 1 (9/10) 100, Reconcile {},
        Observe ''P1'' (Some ''FEMALE'') 0 (19/20) 300]" init_tracker "Some ''MALE''" 1 "9/10" 100]
    at_most_once_counting [of "''P1''" "[Observe ''P1'' (Some ''FEMALE'') 0 (19/20) 300]"
      "observe ''P1'' (Some ''MALE'') 1 (9/10) 100 init_tracker" "Some ''FEMALE''" 0 "19/20" 300]
  by (simp add: observe_def truthy_def count_person_def update_gender_info_def
      reconcileActive_def ids_to_remove_def counters_def valid_category_def init_tracker_def Let_def)

text \<open>
  C2 (idempotence of isCounted). Once an identity is in \<^verbatim>\<open>counted_person_ids\<close>, so that
  \<open>isCounted\<close> answers true, it answers true after every further sequence of observe
  and cleanup calls: the set only grows, no operation removes an element from it.
\<close>

theorem isCounted_persists:
  "isCounted i s \<Longrightarrow>
   isCounted i (run cs s) \<and> counted_person_ids s \<subseteq> counted_person_ids (run cs s)"
  using run_ids_mono [of s cs] by (auto simp: isCounted_def)

theorem isCounted_persists_witness:
  "isCounted ''P1'' (observe ''P1'' (Some ''MALE'') 1 (9/10) 100 init_tracker)
   \<and> isCounted ''P1''
       (run [Reconcile {}, Observe ''P1'' (Some ''MALE'') 1 (19/20) 300, Reconcile {''P7''}]
          (observe ''P1'' (Some ''MALE'') 1 (9/10) 100 init_tracker))"
proof -
  have h: "isCounted ''P1'' (observe ''P1'' (Some ''MALE'') 1 (9/10) 100 init_tracker)"
    by (simp add: isCounted_def observe_def truthy_def init_tracker_def)
  show ?thesis
    using h isCounted_persists [OF h,
        of "[Reconcile {}, Observe ''P1'' (Some ''MALE'') 1 (19/20) 300, Reconcile {''P7''}]"]
    by simp
qed


text \<open>
  C4 (memory bound). For every tracker state and every set \<open>S\<close> of ids of the current
  frame, after the cleanup the keys of \<^verbatim>\<open>tracked_people_gender\<close> all lie in \<open>S\<close>, no
  key outside \<open>S\<close> has a record any more, and \<^verbatim>\<open>counted_person_ids\<close> is the set it
  was before the call.
\<close>

theorem reconcileActive_bounds_records:
  "fst ` set (tracked_people_gender (reconcileActive S s)) \<subseteq> S
   \<and> (\<forall>k. k \<notin> S \<longrightarrow> map_of (tracked_people_gender (reconcileActive S s)) k = None)
   \<and> counted_person_ids (reconcileActive S s) = counted_person_ids s"
  by (simp add: reconcileActive_keys reconcileActive_map_of)

theorem reconcileActive_bounds_records_witness:
  "fst ` set (tracked_people_gender (reconcileActive {''ID1''}
       (run [Observe ''ID0'' (Some ''MALE'') 1 (9/10) 100,
             Observe ''ID1'' (Some ''FEMALE'') 0 (4/5) 101] init_tracker))) \<subseteq> {''ID1''}
   \<and> map_of (tracked_people_gender (reconcileActive {''ID1''}
       (run [Observe ''ID0'' (Some ''MALE'') 1 (9/10) 100,
             Observe ''ID1'' (Some ''FEMALE'') 0 (4/5) 101] init_tracker))) ''ID0'' = None
   \<and> counted_person_ids (reconcileActive {''ID1''}
       (run [Observe ''ID0'' (Some ''MALE'') 1 (9/10) 100,
             Observe ''ID1'' (Some ''FEMALE'') 0 (4/5) 101] init_tracker)) = {''ID0'', ''ID1''}"
  using reconcileActive_bounds_records [of "{''ID1''}"
      "run [Observe ''ID0'' (Some ''MALE'') 1 (9/10) 100,
            Observe ''ID1'' (Some ''FEMALE'') 0 (4/5) 101] init_tracker"]
  by (auto simp: observe_def truthy_def count_person_def init_tracker_def Let_def)

text \<open>
  C5 (observing a counted id). For an identity already in \<^verbatim>\<open>counted_person_ids\<close>, an
  observe call with a label changes no counter and not the counted set; afterwards the
  record of that identity holds the label and the confidence of this call, its
  \<open>counted\<close> flag is the one it had (true for a record that is recreated) and an
  existing record keeps its first-seen frame.
\<close>

theorem observe_counted_updates_record:
  "i \<in> counted_person_ids s \<Longrightarrow> pg \<noteq> [] \<Longrightarrow>
   counters (observe i (Some pg) idx c f s) = counters s
   \<and> counted_person_ids (observe i (Some pg) idx c f s) = counted_person_ids s
   \<and> (\<exists>r. map_of (tracked_people_gender (observe i (Some pg) idx c f s)) i = Some r
          \<and> gender r = pg \<and> confidence r = c
          \<and> (case map_of (tracked_people_gender s) i of
                None \<Rightarrow> counted r
              | Some r0 \<Rightarrow> counted r = counted r0 \<and> first_seen_frame r = first_seen_frame r0))"
  by (simp add: observe_update update_gender_info_def update_conv' counters_def
      split: option.splits)

theorem observe_counted_updates_record_witness:
  "''P2'' \<in> counted_person_ids (observe ''P2'' (Some ''FEMALE'') 0 (4/5) 101 init_tracker)
   \<and> ''FEMALE'' \<noteq> []
   \<and> counters (observe ''P2'' (Some ''FEMALE'') 0 (4/5) 101 init_tracker) = (0, 1, 1)
   \<and> counters (observe ''P2'' (Some ''FEMALE'') 0 (99/100) 102
        (observe ''P2'' (Some ''FEMALE'') 0 (4/5) 101 init_tracker)) = (0, 1, 1)
   \<and> map_of (tracked_people_gender (observe ''P2'' (Some ''FEMALE'') 0 (99/100) 102
        (observe ''P2'' (Some ''FEMALE'') 0 (4/5) 101 init_tracker))) ''P2''
       = Some \<lparr>gender = ''FEMALE'', confidence = 99/100, counted = True,
               first_seen_frame = 101\<rparr>"
proof -
  have h1: "''P2'' \<in> counted_person_ids (observe ''P2'' (Some ''FEMALE'') 0 (4/5) 101 init_tracker)"
    by (simp add: observe_def truthy_def init_tracker_def)
  have h2: "''FEMALE'' \<noteq> []" by simp
  have c0: "counters (observe ''P2'' (Some ''FEMALE'') 0 (4/5) 101 init_tracker) = (0, 1, 1)"
    by (simp add: observe_def truthy_def count_person_def counters_def init_tracker_def Let_def)
  have m0: "map_of (tracked_people_gender
        (observe ''P2'' (Some ''FEMALE'') 0 (4/5) 101 init_tracker)) ''P2''
      = Some \<lparr>gender = ''FEMALE'', confidence = 4/5, counted = True, first_seen_frame = 101\<rparr>"
    by (simp add: observe_def truthy_def count_person_def init_tracker_def Let_def)
  from observe_counted_updates_record [OF h1 h2, of 0 "99/100" 102]
  obtain r where r: "map_of (tracked_people_gender (observe ''P2'' (Some ''FEMALE'') 0 (99/100) 102
        (observe ''P2'' (Some ''FEMALE'') 0 (4/5) 101 init_tracker))) ''P2'' = Some r"
      "gender r = ''FEMALE''" "confidence r = 99/100" "counted r" "first_seen_frame r = 101"
      and c1: "counters (observe ''P2'' (Some ''FEMALE'') 0 (99/100) 102
        (observe ''P2'' (Some ''FEMALE'') 0 (4/5) 101 init_tracker))
        = counters (observe ''P2'' (Some ''FEMALE'') 0 (4/5) 101 init_tracker)"
    unfolding m0 by auto
  from r have "r = \<lparr>gender = ''FEMALE'', confidence = 99/100, counted = True,
               first_seen_frame = 101\<rparr>"
    by (cases r) simp
  with r(1) c1 c0 h1 show ?thesis by simp
qed

text \<open>
  C6 (no classification, no effect). For every tracker state, an observe call without a
  label (\<^verbatim>\<open>person_gender\<close> is \<^verbatim>\<open>None\<close> or empty) returns the state it was given:
  the counted set, the counters and the records, an existing record of that id included,
  are what they were, and no record is created.
\<close>

theorem observe_absent_no_change:
  "\<not> truthy person_gender \<Longrightarrow>
   observe id_obj person_gender gender_idx conf frame_count s = s"
  by (rule observe_absent)

theorem observe_absent_no_change_witness:
  "\<not> truthy None
   \<and> observe ''P3'' None 0 0 50 init_tracker = init_tracker
   \<and> map_of (tracked_people_gender (observe ''P3'' None 0 0 50 init_tracker)) ''P3'' = None
   \<and> \<not> isCounted ''P3'' (observe ''P3'' None 0 0 50 init_tracker)"
proof -
  have h: "\<not> truthy None" by (simp add: truthy_def)
  show ?thesis
    using h observe_absent_no_change [OF h, of "''P3''" 0 0 50 init_tracker]
    by (simp add: init_tracker_def isCounted_def)
qed

text \<open>
  C7 (malformed classification result), as stated: a call with a confidence outside
  \<open>[0, 1]\<close> would be rejected and leave the state alone. The check of line 68 tests
  nothing but membership and the presence of a label: with confidence 1.5 the id is
  counted and the record is stored with that confidence.
\<close>

theorem malformed_result_mutates_state:
  "\<not> valid_confidence (3/2)
   \<and> observe ''ID0'' (Some ''MALE'') 1 (3/2) 100 init_tracker \<noteq> init_tracker
   \<and> isCounted ''ID0'' (observe ''ID0'' (Some ''MALE'') 1 (3/2) 100 init_tracker)
   \<and> male_count (observe ''ID0'' (Some ''MALE'') 1 (3/2) 100 init_tracker) = 1
   \<and> map_of (tracked_people_gender
        (observe ''ID0'' (Some ''MALE'') 1 (3/2) 100 init_tracker)) ''ID0''
       = Some \<lparr>gender = ''MALE'', confidence = 3/2, counted = True, first_seen_frame = 100\<rparr>"
  by (simp add: valid_confidence_def observe_def truthy_def count_person_def isCounted_def
      init_tracker_def Let_def)

text \<open>
  C7, amended. The check does not validate the confidence and has no error result: a
  call with a label, a class index 1 or 0 and a confidence outside \<open>[0, 1]\<close>, for an
  identity not in \<^verbatim>\<open>counted_person_ids\<close>, is the counting branch itself; the identity
  is counted, \<^verbatim>\<open>count_p\<close> and one gender counter go up by one, and the record is
  stored with the confidence as given.
\<close>

theorem malformed_confidence_is_counted:
  "\<not> valid_confidence c \<Longrightarrow> valid_category idx \<Longrightarrow> pg \<noteq> [] \<Longrightarrow>
   i \<notin> counted_person_ids s \<Longrightarrow>
   observe i (Some pg) idx c f s = count_person i pg idx c f s
   \<and> isCounted i (observe i (Some pg) idx c f s)
   \<and> count_p (observe i (Some pg) idx c f s) = count_p s + 1
   \<and> male_count (observe i (Some pg) idx c f s) + female_count (observe i (Some pg) idx c f s)
       = male_count s + female_count s + 1
   \<and> map_of (tracked_people_gender (observe i (Some pg) idx c f s)) i
       = Some \<lparr>gender = pg, confidence = c, counted = True, first_seen_frame = f\<rparr>"
  by (auto simp: observe_count count_person_def isCounted_def valid_category_def Let_def
      update_conv')

theorem malformed_confidence_is_counted_witness:
  "\<not> valid_confidence (3/2) \<and> valid_category 1 \<and> ''MALE'' \<noteq> []
   \<and> ''ID0'' \<notin> counted_person_ids init_tracker
   \<and> isCounted ''ID0'' (observe ''ID0'' (Some ''MALE'') 1 (3/2) 100 init_tracker)
   \<and> count_p (observe ''ID0'' (Some ''MALE'') 1 (3/2) 100 init_tracker) = 1"
proof -
  have h1: "\<not> valid_confidence (3/2)" by (simp add: valid_confidence_def)
  have h2: "valid_category 1" by (simp add: valid_category_def)
  have h3: "''MALE'' \<noteq> []" by simp
  have h4: "''ID0'' \<notin> counted_person_ids init_tracker" by (simp add: init_tracker_def)
  have z: "count_p init_tracker = 0" by (simp add: init_tracker_def)
  from malformed_confidence_is_counted [OF h1 h2 h3 h4, of 100]
  have a: "isCounted ''ID0'' (observe ''ID0'' (Some ''MALE'') 1 (3/2) 100 init_tracker)"
    and b: "count_p (observe ''ID0'' (Some ''MALE'') 1 (3/2) 100 init_tracker)
              = count_p init_tracker + 1"
    by blast+
  from b z have "count_p (observe ''ID0'' (Some ''MALE'') 1 (3/2) 100 init_tracker) = 1"
    by simp
  with h1 h2 h3 h4 a show ?thesis by blast
qed

text \<open>
  C8 (unknown identity). An identity that is not in \<^verbatim>\<open>counted_person_ids\<close> has
  \<open>isCounted\<close> false and status uncounted. In particular, after a session in which no
  call observes the identity, it is uncounted, drawn red, and has no record. Both queries
  are functions of the state to a value: they have no error result and return no state.
\<close>

theorem never_observed_is_uncounted:
  "(i \<notin> counted_person_ids s \<longrightarrow> \<not> isCounted i s \<and> status_of i s = Uncounted)
   \<and> (list_all (\<lambda>a. \<not> observes i a) cs \<longrightarrow>
        \<not> isCounted i (run cs init_tracker)
        \<and> status_of i (run cs init_tracker) = Uncounted
        \<and> box_color i (run cs init_tracker) = (0, 0, 255)
        \<and> map_of (tracked_people_gender (run cs init_tracker)) i = None)"
proof (intro conjI impI)
  assume "i \<notin> counted_person_ids s"
  then show "\<not> isCounted i s" "status_of i s = Uncounted"
    by (simp_all add: isCounted_def status_of_def)
next
  assume a: "list_all (\<lambda>a. \<not> observes i a) cs"
  have "i \<notin> counted_person_ids init_tracker"
    by (simp add: init_tracker_def)
  with a have n: "i \<notin> counted_person_ids (run cs init_tracker)"
    by (rule run_not_observed)
  then show "\<not> isCounted i (run cs init_tracker)"
    "status_of i (run cs init_tracker) = Uncounted"
    "box_color i (run cs init_tracker) = (0, 0, 255)"
    by (simp_all add: isCounted_def status_of_def box_color_def)
  have "records_counted init_tracker"
    by (simp add: records_counted_def init_tracker_def)
  then have "records_counted (run cs init_tracker)"
    by (rule run_records_counted)
  with n have "i \<notin> fst ` set (tracked_people_gender (run cs init_tracker))"
    by (fastforce simp: records_counted_def)
  then show "map_of (tracked_people_gender (run cs init_tracker)) i = None"
    by (simp add: map_of_eq_None_iff)
qed

theorem never_observed_is_uncounted_witness:
  "''P9'' \<notin> counted_person_ids init_tracker
   \<and> \<not> isCounted ''P9'' init_tracker \<and> status_of ''P9'' init_tracker = Uncounted
   \<and> list_all (\<lambda>a. \<not> observes ''P9'' a)
       [Observe ''P1'' (Some ''MALE'') 1 (9/10) 100, Reconcile {''P9''}]
   \<and> \<not> isCounted ''P9''
        (run [Observe ''P1'' (Some ''MALE'') 1 (9/10) 100, Reconcile {''P9''}] init_tracker)
   \<and> status_of ''P9''
        (run [Observe ''P1'' (Some ''MALE'') 1 (9/10) 100, Reconcile {''P9''}] init_tracker)
       = Uncounted
   \<and> status_of ''P1''
        (run [Observe ''P1'' (Some ''MALE'') 1 (9/10) 100, Reconcile {''P9''}] init_tracker)
       = Counted"
proof -
  have h1: "''P9'' \<notin> counted_person_ids init_tracker"
    by (simp add: init_tracker_def)
  have h2: "list_all (\<lambda>a. \<not> observes ''P9'' a)
       [Observe ''P1'' (Some ''MALE'') 1 (9/10) 100, Reconcile {''P9''}]"
    by simp
  have "status_of ''P1''
        (run [Observe ''P1'' (Some ''MALE'') 1 (9/10) 100, Reconcile {''P9''}] init_tracker)
       = Counted"
    by (simp add: status_of_def observe_def truthy_def init_tracker_def)
  then show ?thesis
    using h1 h2 never_observed_is_uncounted [of "''P9''" init_tracker
        "[Observe ''P1'' (Some ''MALE'') 1 (9/10) 100, Reconcile {''P9''}]"]
    by simp
qed

text \<open>
  C9 (total is the size of the counted set). After every session, \<^verbatim>\<open>count_p\<close> is the
  number of elements of \<^verbatim>\<open>counted_person_ids\<close>.
\<close>

theorem total_equals_card_counted:
  "count_p (run cs init_tracker) = int (card (counted_person_ids (run cs init_tracker)))"
proof -
  have "total_is_card init_tracker"
    by (simp add: total_is_card_def init_tracker_def)
  then have "total_is_card (run cs init_tracker)"
    by (rule run_total_is_card)
  then show ?thesis
    by (simp add: total_is_card_def)
qed

theorem total_equals_card_counted_witness:
  "count_p (run [Observe ''P1'' (Some ''MALE'') 1 (9/10) 100, Reconcile {},
                 Observe ''P1'' (Some ''MALE'') 1 (19/20) 300,
                 Observe ''P2'' (Some ''FEMALE'') 0 (4/5) 301] init_tracker) = 2
   \<and> card (counted_person_ids
        (run [Observe ''P1'' (Some ''MALE'') 1 (9/10) 100, Reconcile {},
              Observe ''P1'' (Some ''MALE'') 1 (19/20) 300,
              Observe ''P2'' (Some ''FEMALE'') 0 (4/5) 301] init_tracker)) = 2"
  using total_equals_card_counted [of
      "[Observe ''P1'' (Some ''MALE'') 1 (9/10) 100, Reconcile {},
        Observe ''P1'' (Some ''MALE'') 1 (19/20) 300,
        Observe ''P2'' (Some ''FEMALE'') 0 (4/5) 301]"]
  by (simp add: observe_def truthy_def count_person_def update_gender_info_def
      reconcileActive_def ids_to_remove_def init_tracker_def Let_def)

text \<open>
  C10 (records belong to counted ids). After every session, every key of
  \<^verbatim>\<open>tracked_people_gender\<close> is in \<^verbatim>\<open>counted_person_ids\<close> and every record has
  \<open>counted = True\<close>.
\<close>

theorem records_are_counted:
  "fst ` set (tracked_people_gender (run cs init_tracker))
     \<subseteq> counted_person_ids (run cs init_tracker)
   \<and> (\<forall>r \<in> snd ` set (tracked_people_gender (run cs init_tracker)). counted r)"
proof -
  have "records_counted init_tracker"
    by (simp add: records_counted_def init_tracker_def)
  then have "records_counted (run cs init_tracker)"
    by (rule run_records_counted)
  then show ?thesis
    by (fastforce simp: records_counted_def)
qed

theorem records_are_counted_witness:
  "fst ` set (tracked_people_gender
      (run [Observe ''P1'' (Some ''MALE'') 1 (9/10) 100, Reconcile {},
            Observe ''P1'' (Some ''MALE'') 1 (19/20) 300,
            Observe ''P2'' (Some ''FEMALE'') 0 (4/5) 301] init_tracker)) = {''P1'', ''P2''}
   \<and> counted_person_ids
      (run [Observe ''P1'' (Some ''MALE'') 1 (9/10) 100, Reconcile {},
            Observe ''P1'' (Some ''MALE'') 1 (19/20) 300,
            Observe ''P2'' (Some ''FEMALE'') 0 (4/5) 301] init_tracker) = {''P1'', ''P2''}
   \<and> list_all (\<lambda>p. counted (snd p)) (tracked_people_gender
      (run [Observe ''P1'' (Some ''MALE'') 1 (9/10) 100, Reconcile {},
            Observe ''P1'' (Some ''MALE'') 1 (19/20) 300,
            Observe ''P2'' (Some ''FEMALE'') 0 (4/5) 301] init_tracker))"
  using records_are_counted [of
      "[Observe ''P1'' (Some ''MALE'') 1 (9/10) 100, Reconcile {},
        Observe ''P1'' (Some ''MALE'') 1 (19/20) 300,
        Observe ''P2'' (Some ''FEMALE'') 0 (4/5) 301]"]
  by (auto simp: observe_def truthy_def count_person_def update_gender_info_def
      reconcileActive_def ids_to_remove_def init_tracker_def Let_def)

end
